theory Spec2Isabelle
  imports Complex_Main
begin

section \<open>The data analysis tool: tables and the operations of app.py\<close>

text \<open>
  app.py is one Streamlit script. Every operation on the working table (the variable
  \<^verbatim>\<open>data\<close>) is a call into pandas, so the embedding has two layers:
  \<^item> a model of the pandas values and methods the script calls (\<^verbatim>\<open>isnull\<close>,
    \<^verbatim>\<open>duplicated\<close>, \<^verbatim>\<open>drop_duplicates\<close>, \<^verbatim>\<open>dropna\<close>, \<^verbatim>\<open>fillna\<close>, \<^verbatim>\<open>mean\<close>,
    \<^verbatim>\<open>select_dtypes\<close>, \<^verbatim>\<open>astype\<close>, \<^verbatim>\<open>to_numeric\<close>, \<^verbatim>\<open>to_datetime\<close>, \<^verbatim>\<open>corr\<close>,
    \<^verbatim>\<open>to_csv\<close>, \<^verbatim>\<open>read_csv\<close>), following the behaviour pandas 1.x/2.x documents for its
    defaults;
  \<^item> the branches of the script itself, one function per block, each returning the new value
    of \<^verbatim>\<open>data\<close> together with the notice the script shows (\<^verbatim>\<open>st.success\<close>, \<^verbatim>\<open>st.info\<close>,
    \<^verbatim>\<open>st.warning\<close>, \<^verbatim>\<open>st.error\<close>); an exception the script does not catch is the
    \<open>Inl\<close> of a sum.

  Idealisations, stated once: a float64 is a real number (no rounding, no infinities; only
  the missing value NaN is kept), an int64 is an unbounded integer, the boolean dtype is not
  modelled (a column of True/False literals is read as text), and the text forms of floats
  and dates are parameters (\<open>codec\<close>) rather than fixed functions.
\<close>

subsection \<open>Values, dtypes, columns, tables\<close>

text \<open>
  A cell of a DataFrame. \<open>NaN\<close> stands for every missing marker (NaN, None, NaT):
  \<^verbatim>\<open>isnull\<close> is true exactly there.
\<close>

datatype cell = NaN | IntV int | FloatV real | StrV string | DateV int

text \<open>
  The dtype of a column. \<open>Object\<close> is the dtype of text and of mixed columns;
  \<open>Category cats\<close> carries its categories, which pandas fixes when the column is converted.
\<close>

datatype dtype = Int64 | Float64 | Object | Datetime64 | Category "cell list"

record column =
  cname :: string
  ctype :: dtype
  cells :: "cell list"

type_synonym table = "column list"

text \<open>
  The parts of pandas that are taken as parameters: the text form of a float and of a
  timestamp, their readers (a date is read in the light of the other strings of its
  column, from which pandas guesses the format), the timestamp of a float, and the decoder
  of spreadsheet files.
\<close>

record codec =
  parse_float :: "string \<Rightarrow> real option"
  float_repr :: "real \<Rightarrow> string"
  parse_date :: "string list \<Rightarrow> string \<Rightarrow> int option"
  date_repr :: "int \<Rightarrow> string"
  float_to_ns :: "real \<Rightarrow> int"
  read_excel :: "string \<Rightarrow> table option"

text \<open>
  A codec that reads no float and no date; concrete examples that hold no float and no
  date are evaluated with it.
\<close>

definition no_codec :: codec where
  "no_codec =
     \<lparr>parse_float = (\<lambda>s. None), float_repr = (\<lambda>r. ''?''),
      parse_date = (\<lambda>ss s. None), date_repr = (\<lambda>d. ''?''),
      float_to_ns = (\<lambda>r. \<lfloor>r\<rfloor>), read_excel = (\<lambda>b. None)\<rparr>"

datatype py_exn = KeyError | ValueError | TypeError | ParserError | EmptyDataError

text \<open>What the script reports after a step.\<close>

datatype notice =
    RemovedDuplicates nat
  | NoDuplicates
  | DroppedMissing nat
  | NoMissing
  | FilledMeans
  | NoNumericColumns
  | FilledCustom string
  | Converted
  | ErrorConverting py_exn
  | KeptColumns nat
  | SelectAtLeastOne

definition isnull :: "cell \<Rightarrow> bool" where
  "isnull v = (v = NaN)"

text \<open>
  \<^verbatim>\<open>len(data)\<close>: the length of the index, which every column shares.
\<close>

definition nrows :: "table \<Rightarrow> nat" where
  "nrows t = (case t of [] \<Rightarrow> 0 | c # _ \<Rightarrow> length (cells c))"

definition row_at :: "table \<Rightarrow> nat \<Rightarrow> cell list" where
  "row_at t i = map (\<lambda>c. cells c ! i) t"

definition rows :: "table \<Rightarrow> cell list list" where
  "rows t = map (row_at t) [0..<nrows t]"

fun cell_fits :: "dtype \<Rightarrow> cell \<Rightarrow> bool" where
  "cell_fits Int64 (IntV i) = True"
| "cell_fits Int64 v = False"
| "cell_fits Float64 (FloatV r) = True"
| "cell_fits Float64 NaN = True"
| "cell_fits Float64 v = False"
| "cell_fits Datetime64 (DateV d) = True"
| "cell_fits Datetime64 NaN = True"
| "cell_fits Datetime64 v = False"
| "cell_fits Object v = True"
| "cell_fits (Category cats) v = (v = NaN \<or> v \<in> set cats)"

text \<open>
  The invariant of a DataFrame as the script holds it: column labels are distinct, all
  columns have the length of the index, and a column holds only values of its dtype
  (so an int64 column has no missing value).
\<close>

definition wf_table :: "table \<Rightarrow> bool" where
  "wf_table t =
     (distinct (map cname t) \<and>
      list_all (\<lambda>c. length (cells c) = nrows t \<and> list_all (cell_fits (ctype c)) (cells c)) t)"

text \<open>Boolean indexing: the entries whose flag is set.\<close>

definition mask_select :: "'a list \<Rightarrow> bool list \<Rightarrow> 'a list" where
  "mask_select xs keep = map fst (filter snd (zip xs keep))"

text \<open>
  \<^verbatim>\<open>data[mask]\<close>: the rows whose flag is set, in every column; dtypes
  stay.
\<close>

definition take_rows :: "bool list \<Rightarrow> table \<Rightarrow> table" where
  "take_rows keep t = map (\<lambda>c. c\<lparr>cells := mask_select (cells c) keep\<rparr>) t"

definition get_col :: "table \<Rightarrow> string \<Rightarrow> column option" where
  "get_col t n = find (\<lambda>c. cname c = n) t"

text \<open>
  \<^verbatim>\<open>data[col] = s\<close> for a label that exists: the column is replaced in
  place.
\<close>

definition set_col :: "table \<Rightarrow> string \<Rightarrow> column \<Rightarrow> table" where
  "set_col t n c' = map (\<lambda>c. if cname c = n then c' else c) t"

subsection \<open>Decimal text of integers\<close>

definition digit_char :: "nat \<Rightarrow> char" where
  "digit_char d = (''0123456789'' ! d)"

fun show_nat :: "nat \<Rightarrow> string" where
  "show_nat n = (if n < 10 then [digit_char n] else show_nat (n div 10) @ [digit_char (n mod 10)])"

declare show_nat.simps [simp del]


definition digit_val :: "char \<Rightarrow> nat option" where
  "digit_val c = map_of (zip ''0123456789'' [0, 1, 2, 3, 4, 5, 6, 7, 8, 9]) c"

fun parse_digits :: "nat \<Rightarrow> string \<Rightarrow> nat option" where
  "parse_digits acc [] = Some acc"
| "parse_digits acc (c # cs) =
     (case digit_val c of None \<Rightarrow> None | Some d \<Rightarrow> parse_digits (acc * 10 + d) cs)"

definition parse_nat :: "string \<Rightarrow> nat option" where
  "parse_nat s = (if s = [] then None else parse_digits 0 s)"

text \<open>An integer literal: an optional sign, then one or more decimal digits.\<close>

definition parse_int :: "string \<Rightarrow> int option" where
  "parse_int s =
     (case s of
        [] \<Rightarrow> None
      | c # cs \<Rightarrow>
          if c = CHR ''-'' then map_option (\<lambda>n. - int n) (parse_nat cs)
          else if c = CHR ''+'' then map_option int (parse_nat cs)
          else map_option int (parse_nat s))"

subsection \<open>Remove Duplicate Rows (app.py lines 98-104)\<close>

text \<open>
  \<^verbatim>\<open>duplicated()\<close> hashes each row; two cells fall together when Python finds them equal,
  so the integer 1 and the float 1.0 of a mixed column are one key, and a missing value
  equals a missing value.
\<close>

fun cell_key :: "cell \<Rightarrow> cell" where
  "cell_key (FloatV r) = (if real_of_int \<lfloor>r\<rfloor> = r then IntV \<lfloor>r\<rfloor> else FloatV r)"
| "cell_key v = v"

text \<open>
  A row is flagged when an earlier row has its key (\<^verbatim>\<open>keep='first'\<close>).
\<close>

fun mark_duplicates :: "cell list list \<Rightarrow> cell list list \<Rightarrow> bool list" where
  "mark_duplicates seen [] = []"
| "mark_duplicates seen (r # rs) = (r \<in> set seen) # mark_duplicates (r # seen) rs"

definition duplicated :: "table \<Rightarrow> bool list" where
  "duplicated t = mark_duplicates [] (map (map cell_key) (rows t))"

definition drop_duplicates :: "table \<Rightarrow> table" where
  "drop_duplicates t = take_rows (map Not (duplicated t)) t"

definition count_true :: "bool list \<Rightarrow> nat" where
  "count_true bs = length (filter id bs)"

definition remove_duplicate_rows :: "table \<Rightarrow> table \<times> notice" where
  "remove_duplicate_rows data =
     (let duplicate_count = count_true (duplicated data) in
      if duplicate_count > 0 then (drop_duplicates data, RemovedDuplicates duplicate_count)
      else (data, NoDuplicates))"

subsection \<open>Handle Missing Values (app.py lines 107-137)\<close>

text \<open>\<^verbatim>\<open>data.isnull().any(axis=1)\<close>\<close>

definition isnull_any_row :: "table \<Rightarrow> bool list" where
  "isnull_any_row t = map (\<lambda>r. list_ex isnull r) (rows t)"

definition dropna :: "table \<Rightarrow> table" where
  "dropna t = take_rows (map Not (isnull_any_row t)) t"

definition drop_missing_rows :: "table \<Rightarrow> table \<times> notice" where
  "drop_missing_rows data =
     (let missing_count = count_true (isnull_any_row data) in
      if missing_count > 0 then (dropna data, DroppedMissing missing_count)
      else (data, NoMissing))"

text \<open>
  \<^verbatim>\<open>select_dtypes(include=['number'])\<close> keeps the int64 and float64
  columns.
\<close>

definition is_number :: "dtype \<Rightarrow> bool" where
  "is_number d = (d = Int64 \<or> d = Float64)"

definition select_dtypes_number :: "table \<Rightarrow> table" where
  "select_dtypes_number t = filter (\<lambda>c. is_number (ctype c)) t"

fun cell_real :: "cell \<Rightarrow> real option" where
  "cell_real (IntV i) = Some (real_of_int i)"
| "cell_real (FloatV r) = Some r"
| "cell_real v = None"

text \<open>
  The numbers of a column that are present (\<^verbatim>\<open>skipna=True\<close>).
\<close>

definition present :: "cell list \<Rightarrow> real list" where
  "present vs = List.map_filter cell_real vs"

text \<open>
  \<^verbatim>\<open>Series.mean()\<close>: the mean of the present values, NaN when there is
  none.
\<close>

definition mean :: "cell list \<Rightarrow> cell" where
  "mean vs =
     (let xs = present vs in
      if xs = [] then NaN else FloatV (sum_list xs / real (length xs)))"

definition fillna_cell :: "cell \<Rightarrow> cell \<Rightarrow> cell" where
  "fillna_cell v x = (if isnull x then v else x)"

text \<open>
  The body of the loop over \<^verbatim>\<open>numeric_cols\<close>, for one label.
\<close>

definition fill_mean_col :: "table \<Rightarrow> string \<Rightarrow> table" where
  "fill_mean_col data col =
     (case get_col data col of
        None \<Rightarrow> data
      | Some c \<Rightarrow>
          if list_ex isnull (cells c)
          then set_col data col (c\<lparr>cells := map (fillna_cell (mean (cells c))) (cells c)\<rparr>)
          else data)"

definition fill_numeric_with_mean :: "table \<Rightarrow> table \<times> notice" where
  "fill_numeric_with_mean data =
     (let numeric_cols = map cname (select_dtypes_number data) in
      if length numeric_cols > 0 then (foldl fill_mean_col data numeric_cols, FilledMeans)
      else (data, NoNumericColumns))"





subsection \<open>Convert Column Data Types (app.py lines 141-157)\<close>

















subsection \<open>Select Columns to Keep (app.py lines 160-167)\<close>

text \<open>
  \<^verbatim>\<open>data[labels]\<close>: the columns with these labels, in the order of the
  labels.
\<close>

definition getitem_cols :: "table \<Rightarrow> string list \<Rightarrow> py_exn + table" where
  "getitem_cols data labels =
     (if list_all (\<lambda>n. n \<in> set (map cname data)) labels
      then Inr (concat (map (\<lambda>n. filter (\<lambda>c. cname c = n) data) labels))
      else Inl KeyError)"

definition select_columns :: "string list \<Rightarrow> table \<Rightarrow> py_exn + table \<times> notice" where
  "select_columns selected_cols data =
     (if selected_cols \<noteq> [] then
        (case getitem_cols data selected_cols of
           Inl e \<Rightarrow> Inl e
         | Inr data' \<Rightarrow> Inr (data', KeptColumns (length selected_cols)))
      else Inr (data, SelectAtLeastOne))"

subsection \<open>Dataset Information (app.py lines 73-83)\<close>

text \<open>
  A float64 result of numpy, where division by zero gives inf or nan and no exception.
\<close>

datatype npfloat = Fin real | PosInf | NotANumber

definition np_true_divide :: "nat \<Rightarrow> nat \<Rightarrow> npfloat" where
  "np_true_divide a b =
     (if b = 0 then (if a = 0 then NotANumber else PosInf) else Fin (real a / real b))"

fun np_times :: "npfloat \<Rightarrow> real \<Rightarrow> npfloat" where
  "np_times (Fin x) k = Fin (x * k)"
| "np_times PosInf k = (if k > 0 then PosInf else NotANumber)"
| "np_times NotANumber k = NotANumber"

definition round_half_even :: "real \<Rightarrow> int" where
  "round_half_even y =
     (let f = \<lfloor>y\<rfloor>; d = y - real_of_int f in
      if d < 1 / 2 then f else if d > 1 / 2 then f + 1 else if even f then f else f + 1)"

fun np_round2 :: "npfloat \<Rightarrow> npfloat" where
  "np_round2 (Fin x) = Fin (real_of_int (round_half_even (x * 100)) / 100)"
| "np_round2 v = v"

fun dtype_str :: "dtype \<Rightarrow> string" where
  "dtype_str Int64 = ''int64''"
| "dtype_str Float64 = ''float64''"
| "dtype_str Object = ''object''"
| "dtype_str Datetime64 = ''datetime64[ns]''"
| "dtype_str (Category cats) = ''category''"

record col_info =
  column_name :: string
  data_type :: string
  missing_values :: nat
  missing_pct :: npfloat

definition isnull_sum :: "column \<Rightarrow> nat" where
  "isnull_sum c = length (filter isnull (cells c))"

definition col_types :: "table \<Rightarrow> col_info list" where
  "col_types data =
     map (\<lambda>c. \<lparr>column_name = cname c, data_type = dtype_str (ctype c),
               missing_values = isnull_sum c,
               missing_pct = np_round2 (np_times (np_true_divide (isnull_sum c) (nrows data)) 100)\<rparr>)
       data"

subsection \<open>Correlation Matrix (app.py lines 175-182 and 228-237)\<close>

text \<open>The rows where both columns hold a number.\<close>

definition complete_pairs :: "cell list \<Rightarrow> cell list \<Rightarrow> (real \<times> real) list" where
  "complete_pairs xs ys =
     List.map_filter
       (\<lambda>(x, y). case cell_real x of
                   None \<Rightarrow> None
                 | Some a \<Rightarrow> (case cell_real y of None \<Rightarrow> None | Some b \<Rightarrow> Some (a, b)))
       (zip xs ys)"

definition avg :: "real list \<Rightarrow> real" where
  "avg xs = sum_list xs / real (length xs)"

text \<open>
  Pearson's coefficient as \<^verbatim>\<open>DataFrame.corr()\<close> computes it (\<^verbatim>\<open>min_periods=1\<close>): NaN
  without an observation and NaN when the divisor is zero.
\<close>

definition pearson :: "(real \<times> real) list \<Rightarrow> npfloat" where
  "pearson ps =
     (if length ps < 1 then NotANumber
      else
        (let mx = avg (map fst ps); my = avg (map snd ps);
             ssx = sum_list (map (\<lambda>p. (fst p - mx) ^ 2) ps);
             ssy = sum_list (map (\<lambda>p. (snd p - my) ^ 2) ps);
             cov = sum_list (map (\<lambda>p. (fst p - mx) * (snd p - my)) ps);
             divisor = sqrt (ssx * ssy)
         in if divisor \<noteq> 0 then Fin (cov / divisor) else NotANumber))"

definition corr :: "table \<Rightarrow> npfloat list list" where
  "corr t = map (\<lambda>x. map (\<lambda>y. pearson (complete_pairs (cells x) (cells y))) t) t"

datatype chart =
    CorrelationChart "string list" "npfloat list list"
  | NeedsNumericColumns
  | ErrorGenerating py_exn

text \<open>
  The visualisation block with "Correlation Matrix" chosen and the button pressed. The
  \<^verbatim>\<open>else\<close> of line 241 is the warning "Your dataset needs numeric columns for
  visualization"; there is no other refusal on this path.
\<close>

definition correlation_matrix_chart :: "table \<Rightarrow> chart" where
  "correlation_matrix_chart data =
     (let numeric_columns = map cname (select_dtypes_number data) in
      if length numeric_columns \<ge> 1 then
        (case getitem_cols data numeric_columns of
           Inl e \<Rightarrow> ErrorGenerating e
         | Inr num \<Rightarrow> CorrelationChart (map cname num) (corr num))
      else NeedsNumericColumns)"

text \<open>The sum of squared deviations of a column: zero exactly when it has no variance.\<close>

definition sum_sq_dev :: "cell list \<Rightarrow> real" where
  "sum_sq_dev vs = sum_list (map (\<lambda>x. (x - avg (present vs)) ^ 2) (present vs))"

subsection \<open>Export to CSV (app.py lines 253-254)\<close>







subsection \<open>Loading a file (app.py lines 52-63)\<close>

text \<open>
  The tokenizer of \<^verbatim>\<open>pd.read_csv\<close> with its defaults: comma, double quote with doubling,
  line feed or carriage return as line end. A field is a pair of the flag "was quoted" and
  its text. The arguments are the state, the flag and text of the field being read, the
  fields of the record being read, and the input left. End of input inside a quoted field
  is an error (\<open>None\<close>).
\<close>

datatype tok_state = StartRecord | StartField | InField | InQuotedField | QuoteInQuotedField | EatCRNL

type_synonym field = "bool \<times> string"

fun tokenize :: "tok_state \<Rightarrow> bool \<Rightarrow> string \<Rightarrow> field list \<Rightarrow> string \<Rightarrow> field list list option" where
  "tokenize st q cur row [] =
     (if st = StartRecord \<or> st = EatCRNL then Some []
      else if st = InQuotedField then None
      else Some [row @ [(q, cur)]])"
| "tokenize st q cur row (c # cs) =
     (if st = EatCRNL \<and> c = CHR ''\<newline>'' then tokenize StartRecord False [] [] cs
      else if st = StartRecord \<or> st = StartField \<or> st = EatCRNL then
        (if c = CHR '','' then tokenize StartField False [] (row @ [(False, [])]) cs
         else if c = CHR 0x22 then tokenize InQuotedField True [] row cs
         else if c = CHR ''\<newline>'' then
           map_option (Cons (row @ [(False, [])])) (tokenize StartRecord False [] [] cs)
         else if c = CHR 0x0D then
           map_option (Cons (row @ [(False, [])])) (tokenize EatCRNL False [] [] cs)
         else tokenize InField False [c] row cs)
      else if st = InQuotedField then
        (if c = CHR 0x22 then tokenize QuoteInQuotedField q cur row cs
         else tokenize InQuotedField q (cur @ [c]) row cs)
      else if st = QuoteInQuotedField \<and> c = CHR 0x22 then tokenize InQuotedField q (cur @ [c]) row cs
      else
        (if c = CHR '','' then tokenize StartField False [] (row @ [(q, cur)]) cs
         else if c = CHR ''\<newline>'' then
           map_option (Cons (row @ [(q, cur)])) (tokenize StartRecord False [] [] cs)
         else if c = CHR 0x0D then
           map_option (Cons (row @ [(q, cur)])) (tokenize EatCRNL False [] [] cs)
         else tokenize InField q (cur @ [c]) row cs))"

text \<open>
  \<^verbatim>\<open>skip_blank_lines=True\<close>: a line that is empty or holds only spaces and tabs is no
  record.
\<close>

definition blank_record :: "field list \<Rightarrow> bool" where
  "blank_record r =
     (case r of
        [(q, s)] \<Rightarrow> \<not> q \<and> list_all (\<lambda>c. c = CHR '' '' \<or> c = CHR 0x09) s
      | _ \<Rightarrow> False)"

text \<open>The strings \<^verbatim>\<open>read_csv\<close> takes for a missing value.\<close>

definition na_values :: "string list" where
  "na_values =
     [[], ''#N/A'', ''#N/A N/A'', ''#NA'', ''-1.#IND'', ''-1.#QNAN'', ''-NaN'', ''-nan'',
      ''1.#IND'', ''1.#QNAN'', ''<NA>'', ''N/A'', ''NA'', ''NULL'', ''NaN'', ''None'',
      ''n/a'', ''nan'', ''null'']"

definition field_number :: "codec \<Rightarrow> string \<Rightarrow> real option" where
  "field_number cd s =
     (case parse_int s of Some i \<Rightarrow> Some (real_of_int i) | None \<Rightarrow> parse_float cd s)"

text \<open>
  The dtype of a parsed column: int64 when every field is an integer literal, float64 when
  every field is a number or a missing marker, object otherwise; a column without rows is
  object.
\<close>

definition infer_column :: "codec \<Rightarrow> string \<Rightarrow> string list \<Rightarrow> column" where
  "infer_column cd n fs =
     (if fs = [] then \<lparr>cname = n, ctype = Object, cells = []\<rparr>
      else if list_all (\<lambda>s. parse_int s \<noteq> None) fs then
        \<lparr>cname = n, ctype = Int64,
         cells = map (\<lambda>s. case parse_int s of Some i \<Rightarrow> IntV i | None \<Rightarrow> NaN) fs\<rparr>
      else if list_all (\<lambda>s. s \<in> set na_values \<or> field_number cd s \<noteq> None) fs then
        \<lparr>cname = n, ctype = Float64,
         cells = map (\<lambda>s. if s \<in> set na_values then NaN
                          else (case field_number cd s of Some r \<Rightarrow> FloatV r | None \<Rightarrow> NaN)) fs\<rparr>
      else
        \<lparr>cname = n, ctype = Object,
         cells = map (\<lambda>s. if s \<in> set na_values then NaN else StrV s) fs\<rparr>)"

text \<open>
  Column labels from the header record: an empty label becomes \<^verbatim>\<open>Unnamed: i\<close>, and a label
  seen \<open>k\<close> times before gets the suffix \<^verbatim>\<open>.k\<close> (pandas goes on counting when that
  name is taken as well, which is left out here).
\<close>

fun unnamed :: "nat \<Rightarrow> string list \<Rightarrow> string list" where
  "unnamed i [] = []"
| "unnamed i (n # ns) = (if n = [] then ''Unnamed: '' @ show_nat i else n) # unnamed (Suc i) ns"

fun dedup_names :: "string list \<Rightarrow> string list \<Rightarrow> string list" where
  "dedup_names seen [] = []"
| "dedup_names seen (n # ns) =
     (let k = length (filter (\<lambda>m. m = n) seen) in
      (if k = 0 then n else n @ ''.'' @ show_nat k) # dedup_names (n # seen) ns)"

definition header_names :: "string list \<Rightarrow> string list" where
  "header_names hs = dedup_names [] (unnamed 0 hs)"

text \<open>
  The text of field \<open>k\<close> of a record; a record that is too short gives missing
  values.
\<close>

definition field_at :: "field list \<Rightarrow> nat \<Rightarrow> string" where
  "field_at r k = (if k < length r then snd (r ! k) else [])"

text \<open>
  \<^verbatim>\<open>pd.read_csv(file)\<close>. The first record that is not blank is the header. When the first
  data record is longer than the header, its leading fields are the index, which the
  table does not carry; a later record longer than that is a ParserError.
\<close>

definition read_csv :: "codec \<Rightarrow> string \<Rightarrow> py_exn + table" where
  "read_csv cd content =
     (case tokenize StartRecord False [] [] content of
        None \<Rightarrow> Inl ParserError
      | Some recs \<Rightarrow>
          (case filter (\<lambda>r. \<not> blank_record r) recs of
             [] \<Rightarrow> Inl EmptyDataError
           | header # body \<Rightarrow>
               (let names = header_names (map snd header);
                    width = (case body of [] \<Rightarrow> length names | r # _ \<Rightarrow> max (length names) (length r));
                    lead = width - length names
                in if list_ex (\<lambda>r. length r > width) body then Inl ParserError
                   else Inr (map (\<lambda>j. infer_column cd (names ! j) (map (\<lambda>r. field_at r (lead + j)) body))
                               [0..<length names]))))"

record uploaded_file =
  file_name :: string
  file_bytes :: string

definition endswith :: "string \<Rightarrow> string \<Rightarrow> bool" where
  "endswith s suf = (length suf \<le> length s \<and> drop (length s - length suf) s = suf)"

text \<open>
  \<open>load_data\<close>: \<open>None\<close> is the script's \<^verbatim>\<open>return None\<close>, after \<^verbatim>\<open>st.error\<close>,
  for an unsupported extension and for any exception of the reader.
\<close>

definition load_data :: "codec \<Rightarrow> uploaded_file \<Rightarrow> table option" where
  "load_data cd file =
     (if endswith (file_name file) ''.csv'' then
        (case read_csv cd (file_bytes file) of Inl e \<Rightarrow> None | Inr t \<Rightarrow> Some t)
      else if endswith (file_name file) ''.xls'' \<or> endswith (file_name file) ''.xlsx'' then
        read_excel cd (file_bytes file)
      else None)"

subsection \<open>Predicates and functions used to state the properties\<close>

text \<open>
  The index, in the original list, of the \<open>j\<close>-th entry that a mask keeps.
\<close>

fun pos :: "bool list \<Rightarrow> nat \<Rightarrow> nat" where
  "pos [] j = 0"
| "pos (k # ks) j = (if k then (case j of 0 \<Rightarrow> 0 | Suc j' \<Rightarrow> Suc (pos ks j')) else Suc (pos ks j))"

text \<open>All columns of a table have the length of its index.\<close>

definition same_length :: "table \<Rightarrow> bool" where
  "same_length t = list_all (\<lambda>c. length (cells c) = nrows t) t"






text \<open>A column with its missing values replaced by its mean.\<close>

definition fill_mean :: "column \<Rightarrow> column" where
  "fill_mean c = c\<lparr>cells := map (\<lambda>v. if isnull v then mean (cells c) else v) (cells c)\<rparr>"

text \<open>
  The CSV text of the scenario: a header and three rows, the third without a value for b.
\<close>

definition scenario_csv :: string where
  "scenario_csv = ''a,b\<newline>1,2\<newline>1,2\<newline>3,''"







section \<open>Lemmas about the model\<close>

lemma mask_select_Nil [simp]: "mask_select [] keep = []" "mask_select xs [] = []"
  by (simp_all add: mask_select_def)

lemma mask_select_Cons [simp]:
  "mask_select (x # xs) (k # ks) = (if k then x # mask_select xs ks else mask_select xs ks)"
  by (simp add: mask_select_def)

lemma length_mask_select:
  "length xs = length keep \<Longrightarrow> length (mask_select xs keep) = count_true keep"
  by (induction xs keep rule: list_induct2) (auto simp: count_true_def)

lemma pos_less:
  "j < count_true keep \<Longrightarrow> pos keep j < length keep"
  by (induction keep arbitrary: j) (auto simp: count_true_def split: nat.splits)

lemma nth_mask_select:
  "length xs = length keep \<Longrightarrow> j < count_true keep \<Longrightarrow> mask_select xs keep ! j = xs ! pos keep j"
proof (induction xs keep arbitrary: j rule: list_induct2)
  case Nil
  then show ?case by (simp add: count_true_def)
next
  case (Cons x xs k ks)
  then show ?case
    by (cases j) (auto simp: count_true_def)
qed

lemma mask_select_map: "mask_select (map f xs) keep = map f (mask_select xs keep)"
proof (induction xs arbitrary: keep)
  case Nil
  then show ?case by simp
next
  case (Cons x xs)
  then show ?case by (cases keep) auto
qed

lemma wf_same_length: "wf_table t \<Longrightarrow> same_length t"
  by (auto simp: wf_table_def same_length_def list_all_iff)

lemma nrows_take_rows:
  assumes "same_length t" "length keep = nrows t"
  shows "nrows (take_rows keep t) = (if t = [] then 0 else count_true keep)"
proof (cases t)
  case Nil
  then show ?thesis by (simp add: take_rows_def nrows_def)
next
  case (Cons c cs)
  then show ?thesis using assms
    by (simp add: take_rows_def nrows_def length_mask_select)
qed

lemma rows_take_rows:
  assumes sl: "same_length t" and len: "length keep = nrows t"
  shows "rows (take_rows keep t) = mask_select (rows t) keep"
proof (cases "t = []")
  case True
  then show ?thesis by (simp add: rows_def take_rows_def nrows_def)
next
  case False
  have n': "nrows (take_rows keep t) = count_true keep"
    using nrows_take_rows [OF sl len] False by simp
  have lr: "length (rows t) = length keep" using len by (simp add: rows_def)
  show ?thesis
  proof (rule nth_equalityI)
    show "length (rows (take_rows keep t)) = length (mask_select (rows t) keep)"
      using n' lr by (simp add: rows_def length_mask_select)
  next
    fix j assume "j < length (rows (take_rows keep t))"
    then have j: "j < count_true keep" using n' by (simp add: rows_def)
    then have p: "pos keep j < nrows t" using pos_less len by metis
    have "rows (take_rows keep t) ! j = row_at (take_rows keep t) j"
      using j n' by (simp add: rows_def)
    also have "\<dots> = map (\<lambda>c. mask_select (cells c) keep ! j) t"
      by (simp add: row_at_def take_rows_def comp_def)
    also have "\<dots> = map (\<lambda>c. cells c ! pos keep j) t"
    proof (rule map_cong [OF refl])
      fix c assume "c \<in> set t"
      then have "length (cells c) = length keep"
        using sl len by (auto simp: same_length_def list_all_iff)
      then show "mask_select (cells c) keep ! j = cells c ! pos keep j"
        using j by (rule nth_mask_select)
    qed
    also have "\<dots> = rows t ! pos keep j"
      using p by (simp add: rows_def row_at_def)
    also have "\<dots> = mask_select (rows t) keep ! j"
      using nth_mask_select [OF lr j] by simp
    finally show "rows (take_rows keep t) ! j = mask_select (rows t) keep ! j" .
  qed
qed

lemma same_length_take_rows:
  assumes "same_length t" "length keep = nrows t"
  shows "same_length (take_rows keep t)"
proof -
  have "\<forall>c \<in> set t. length (mask_select (cells c) keep) = count_true keep"
    using assms by (auto simp: same_length_def list_all_iff length_mask_select)
  moreover have "t \<noteq> [] \<Longrightarrow> nrows (take_rows keep t) = count_true keep"
    using nrows_take_rows [OF assms] by simp
  ultimately show ?thesis
    by (cases "t = []") (auto simp: same_length_def list_all_iff take_rows_def)
qed

lemma mark_duplicates_set:
  "set seen = set seen' \<Longrightarrow> mark_duplicates seen ks = mark_duplicates seen' ks"
proof (induction ks arbitrary: seen seen')
  case Nil
  then show ?case by simp
next
  case (Cons r rs)
  have "mark_duplicates (r # seen) rs = mark_duplicates (r # seen') rs"
    by (rule Cons.IH) (simp add: Cons.prems)
  then show ?case using Cons.prems by simp
qed

lemma length_mark_duplicates [simp]: "length (mark_duplicates seen ks) = length ks"
  by (induction ks arbitrary: seen) auto

lemma mark_duplicates_kept:
  "count_true (mark_duplicates seen (mask_select ks (map Not (mark_duplicates seen ks)))) = 0"
proof (induction ks arbitrary: seen)
  case Nil
  then show ?case by (simp add: count_true_def)
next
  case (Cons r rs)
  show ?case
  proof (cases "r \<in> set seen")
    case True
    then have "set (r # seen) = set seen" by auto
    then have "mark_duplicates seen (mask_select rs (map Not (mark_duplicates (r # seen) rs)))
        = mark_duplicates (r # seen) (mask_select rs (map Not (mark_duplicates (r # seen) rs)))"
      by (metis mark_duplicates_set)
    then show ?thesis using True Cons.IH [of "r # seen"]
      by simp
  next
    case False
    then show ?thesis using Cons.IH [of "r # seen"]
      by (simp add: count_true_def)
  qed
qed

lemma length_duplicated: "length (duplicated t) = nrows t"
  by (simp add: duplicated_def rows_def)

lemma duplicated_drop_duplicates:
  assumes "same_length t"
  shows "count_true (duplicated (drop_duplicates t)) = 0"
proof -
  have "rows (drop_duplicates t) = mask_select (rows t) (map Not (duplicated t))"
    unfolding drop_duplicates_def
    by (rule rows_take_rows [OF assms]) (simp add: length_duplicated)
  then show ?thesis
    by (simp add: duplicated_def mask_select_map [symmetric] mark_duplicates_kept)
qed




lemma filter_label_single:
  "distinct (map cname t) \<Longrightarrow> c \<in> set t \<Longrightarrow> filter (\<lambda>d. cname d = cname c) t = [c]"
proof (induction t)
  case Nil
  then show ?case by simp
next
  case (Cons a t)
  show ?case
  proof (cases "a = c")
    case True
    have "cname c \<notin> cname ` set t" using Cons.prems True by simp
    then have "\<forall>d \<in> set t. cname d \<noteq> cname c" by (metis imageI)
    then have "filter (\<lambda>d. cname d = cname c) t = []" by (simp add: filter_empty_conv)
    then show ?thesis using True by simp
  next
    case False
    then have "c \<in> set t" using Cons.prems by simp
    then have "cname a \<noteq> cname c" using Cons.prems by (metis distinct.simps(2) imageI list.simps(9) set_map)
    then show ?thesis using Cons \<open>c \<in> set t\<close> by simp
  qed
qed

















lemma find_label_single:
  "distinct (map cname t) \<Longrightarrow> c \<in> set t \<Longrightarrow> get_col t (cname c) = Some c"
proof (induction t)
  case Nil
  then show ?case by simp
next
  case (Cons a t)
  show ?case
  proof (cases "a = c")
    case True
    then show ?thesis by (simp add: get_col_def)
  next
    case False
    then have c: "c \<in> set t" using Cons.prems by simp
    then have "cname a \<noteq> cname c" using Cons.prems by (metis distinct.simps(2) imageI list.simps(9) set_map)
    then show ?thesis using Cons c by (simp add: get_col_def)
  qed
qed

lemma getitem_cols_distinct:
  assumes "distinct (map cname t)" "set labels \<subseteq> set (map cname t)"
  shows "\<exists>t'. getitem_cols t labels = Inr t' \<and> map cname t' = labels
             \<and> map Some t' = map (get_col t) labels"
proof -
  have one: "\<forall>n \<in> set labels. \<exists>c. filter (\<lambda>d. cname d = n) t = [c] \<and> get_col t n = Some c \<and> cname c = n"
  proof
    fix n assume "n \<in> set labels"
    then have "n \<in> set (map cname t)" using assms(2) by blast
    then obtain c where c: "c \<in> set t" "cname c = n" by auto
    show "\<exists>c. filter (\<lambda>d. cname d = n) t = [c] \<and> get_col t n = Some c \<and> cname c = n"
      using filter_label_single [OF assms(1) c(1)] find_label_single [OF assms(1) c(1)] c(2) by auto
  qed
  have "map cname (concat (map (\<lambda>n. filter (\<lambda>c. cname c = n) t) labels)) = labels
      \<and> map Some (concat (map (\<lambda>n. filter (\<lambda>c. cname c = n) t) labels)) = map (get_col t) labels"
    using one
  proof (induction labels)
    case Nil
    then show ?case by simp
  next
    case (Cons n ns)
    then obtain c where "filter (\<lambda>d. cname d = n) t = [c]" "get_col t n = Some c" "cname c = n"
      by (meson list.set_intros(1))
    then show ?case using Cons by simp
  qed
  moreover have "list_all (\<lambda>n. n \<in> set (map cname t)) labels"
    using assms(2) by (auto simp: list_all_iff)
  ultimately show ?thesis by (simp add: getitem_cols_def)
qed








lemma fill_mean_name [simp]: "cname (fill_mean c) = cname c"
  by (simp add: fill_mean_def)

lemma fill_mean_same: "\<not> list_ex isnull (cells c) \<Longrightarrow> fill_mean c = c"
proof -
  assume "\<not> list_ex isnull (cells c)"
  then have "map (\<lambda>v. if isnull v then mean (cells c) else v) (cells c) = cells c"
    by (simp add: list_ex_iff map_idI)
  then show ?thesis by (simp add: fill_mean_def)
qed

lemma same_label_same_column:
  "distinct (map cname t) \<Longrightarrow> c \<in> set t \<Longrightarrow> d \<in> set t \<Longrightarrow> cname d = cname c \<Longrightarrow> d = c"
  by (meson distinct_map inj_onD)

lemma fill_mean_col_step:
  assumes "distinct (map cname t)" "c \<in> set t"
  shows "fill_mean_col t (cname c) = map (\<lambda>d. if cname d = cname c then fill_mean d else d) t"
proof -
  have g: "get_col t (cname c) = Some c" using find_label_single [OF assms] .
  have eq: "\<And>d. d \<in> set t \<Longrightarrow> cname d = cname c \<Longrightarrow> d = c"
    using same_label_same_column [OF assms] by blast
  show ?thesis
  proof (cases "list_ex isnull (cells c)")
    case True
    have "c\<lparr>cells := map (fillna_cell (mean (cells c))) (cells c)\<rparr> = fill_mean c"
      by (simp add: fill_mean_def fillna_cell_def)
    then have "fill_mean_col t (cname c) = map (\<lambda>d. if cname d = cname c then fill_mean c else d) t"
      using g True by (simp add: fill_mean_col_def set_col_def)
    also have "\<dots> = map (\<lambda>d. if cname d = cname c then fill_mean d else d) t"
      by (rule map_cong) (use eq in auto)
    finally show ?thesis .
  next
    case False
    have "map (\<lambda>d. if cname d = cname c then fill_mean d else d) t = map (\<lambda>d. d) t"
      by (rule map_cong) (use eq False fill_mean_same in auto)
    then show ?thesis using g False by (simp add: fill_mean_col_def)
  qed
qed

lemma foldl_fill_mean_col:
  assumes "distinct (map cname t)" "distinct ns" "set ns \<subseteq> set (map cname t)"
  shows "foldl fill_mean_col t ns = map (\<lambda>d. if cname d \<in> set ns then fill_mean d else d) t"
  using assms
proof (induction ns arbitrary: t)
  case Nil
  then show ?case by simp
next
  case (Cons n ns)
  obtain c where c: "c \<in> set t" "cname c = n" using Cons.prems(3) by auto
  let ?t1 = "map (\<lambda>d. if cname d = n then fill_mean d else d) t"
  have step: "fill_mean_col t n = ?t1"
    using fill_mean_col_step [OF Cons.prems(1) c(1)] c(2) by simp
  have names: "map cname ?t1 = map cname t" by (induction t) simp_all
  have d1: "distinct (map cname ?t1)" using Cons.prems(1) by (metis names)
  have s1: "set ns \<subseteq> set (map cname ?t1)" using Cons.prems(3) by (metis names set_subset_Cons subset_trans)
  have "foldl fill_mean_col t (n # ns) = foldl fill_mean_col ?t1 ns" using step by simp
  also have "\<dots> = map (\<lambda>d. if cname d \<in> set ns then fill_mean d else d) ?t1"
    using Cons.IH [OF d1 _ s1] Cons.prems(2) by simp
  also have "\<dots> = map (\<lambda>d. if cname d \<in> set (n # ns) then fill_mean d else d) t"
    using Cons.prems(2) by (auto simp: comp_def)
  finally show ?case .
qed

lemma complete_pairs_swap:
  "complete_pairs ys xs = map prod.swap (complete_pairs xs ys)"
proof (induction xs arbitrary: ys)
  case Nil
  then show ?case by (simp add: complete_pairs_def map_filter_simps)
next
  case (Cons x xs)
  show ?case
  proof (cases ys)
    case Nil
    then show ?thesis by (simp add: complete_pairs_def map_filter_simps)
  next
    case (Cons y ys')
    have "complete_pairs ys' xs = map prod.swap (complete_pairs xs ys')" by (rule Cons.IH)
    then show ?thesis using Cons
      by (simp add: complete_pairs_def map_filter_simps split: option.splits)
  qed
qed

lemma pearson_swap: "pearson (map prod.swap ps) = pearson ps"
  by (auto simp add: pearson_def comp_def Let_def mult.commute)

lemma pearson_symmetric:
  "pearson (complete_pairs xs ys) = pearson (complete_pairs ys xs)"
  by (simp add: complete_pairs_swap [of ys xs] pearson_swap)

lemma complete_pairs_self:
  "complete_pairs xs xs = map (\<lambda>a. (a, a)) (present xs)"
  by (induction xs) (simp_all add: complete_pairs_def present_def map_filter_simps split: option.splits)

lemma pearson_self:
  assumes "sum_sq_dev xs \<noteq> 0"
  shows "pearson (complete_pairs xs xs) = Fin 1"
proof -
  let ?zs = "present xs"
  let ?S = "sum_list (map (\<lambda>x. (x - avg ?zs) ^ 2) ?zs)"
  have S: "?S \<noteq> 0" using assms by (simp add: sum_sq_dev_def)
  then have ne: "?zs \<noteq> []" by auto
  have nonneg: "0 \<le> ?S" by (rule sum_list_nonneg) auto
  have "sqrt (?S * ?S) = ?S" using nonneg by simp
  then show ?thesis using S ne
    by (simp add: pearson_def complete_pairs_self comp_def power2_eq_square Let_def)
qed

lemma getitem_numeric:
  assumes "distinct (map cname t)"
  shows "getitem_cols t (map cname (select_dtypes_number t)) = Inr (select_dtypes_number t)"
proof -
  let ?num = "select_dtypes_number t"
  have each: "\<And>c. c \<in> set ?num \<Longrightarrow> filter (\<lambda>d. cname d = cname c) t = [c]"
    using filter_label_single [OF assms] by (simp add: select_dtypes_number_def)
  have "concat (map (\<lambda>n. filter (\<lambda>c. cname c = n) t) (map cname ?num)) = concat (map (\<lambda>c. [c]) ?num)"
    using each by (simp add: comp_def cong: map_cong)
  also have "\<dots> = ?num" by (induction ?num) simp_all
  finally have "concat (map (\<lambda>n. filter (\<lambda>c. cname c = n) t) (map cname ?num)) = ?num" .
  moreover have "list_all (\<lambda>n. n \<in> set (map cname t)) (map cname ?num)"
    by (auto simp: list_all_iff select_dtypes_number_def)
  ultimately show ?thesis by (simp add: getitem_cols_def)
qed

lemmas csv_eval = read_csv_def blank_record_def header_names_def field_at_def infer_column_def parse_int_def parse_nat_def digit_val_def na_values_def field_number_def load_data_def endswith_def

lemmas step_eval = remove_duplicate_rows_def duplicated_def rows_def row_at_def nrows_def drop_duplicates_def take_rows_def mask_select_def count_true_def drop_missing_rows_def isnull_any_row_def dropna_def isnull_def

lemma load_scenario:
  "load_data cd \<lparr>file_name = ''data.csv'', file_bytes = scenario_csv\<rparr>
     = Some [\<lparr>cname = ''a'', ctype = Int64, cells = [IntV 1, IntV 1, IntV 3]\<rparr>,
             \<lparr>cname = ''b'', ctype = Float64, cells = [FloatV 2, FloatV 2, NaN]\<rparr>]"
  by (simp add: scenario_csv_def csv_eval)

lemma dedup_scenario:
  "remove_duplicate_rows
      [\<lparr>cname = ''a'', ctype = Int64, cells = [IntV 1, IntV 1, IntV 3]\<rparr>,
       \<lparr>cname = ''b'', ctype = Float64, cells = [FloatV 2, FloatV 2, NaN]\<rparr>]
   = ([\<lparr>cname = ''a'', ctype = Int64, cells = [IntV 1, IntV 3]\<rparr>,
       \<lparr>cname = ''b'', ctype = Float64, cells = [FloatV 2, NaN]\<rparr>], RemovedDuplicates 1)"
  by (simp add: step_eval upt_rec)

lemma dropna_scenario:
  "drop_missing_rows
      [\<lparr>cname = ''a'', ctype = Int64, cells = [IntV 1, IntV 3]\<rparr>,
       \<lparr>cname = ''b'', ctype = Float64, cells = [FloatV 2, NaN]\<rparr>]
   = ([\<lparr>cname = ''a'', ctype = Int64, cells = [IntV 1]\<rparr>,
       \<lparr>cname = ''b'', ctype = Float64, cells = [FloatV 2]\<rparr>], DroppedMissing 1)"
  by (simp add: step_eval upt_rec)

lemmas table_eval = wf_table_def nrows_def select_dtypes_number_def is_number_def






































section \<open>The properties of the specification\<close>

subsection \<open>C1: the Correlation Matrix chart and its gate\<close>

text \<open>
  C1 as the specification states it asks for a refusal whenever fewer than two columns are
  numeric. The script's gate is \<^verbatim>\<open>len(numeric_columns) >= 1\<close>: with
  exactly one numeric column the chart is drawn, a matrix of one row and one column.
\<close>

theorem correlation_one_numeric_column:
  "length (select_dtypes_number [\<lparr>cname = ''x'', ctype = Int64, cells = [IntV 0, IntV 2]\<rparr>]) < 2
   \<and> correlation_matrix_chart [\<lparr>cname = ''x'', ctype = Int64, cells = [IntV 0, IntV 2]\<rparr>]
       = CorrelationChart [''x''] [[Fin 1]]"
proof -
  have "sum_sq_dev [IntV 0, IntV 2] \<noteq> 0"
    by (simp add: sum_sq_dev_def present_def map_filter_simps avg_def)
  then have "pearson (complete_pairs [IntV 0, IntV 2] [IntV 0, IntV 2]) = Fin 1"
    by (rule pearson_self)
  then show ?thesis
    by (simp add: correlation_matrix_chart_def getitem_cols_def corr_def table_eval)
qed

text \<open>
  C1 (amended). For every table with no numeric column, asking for the Correlation Matrix is
  refused with the warning that the dataset needs numeric columns. For every table with at
  least one numeric column, the chart is the matrix of pairwise Pearson coefficients over all
  the numeric columns, in their order: it is square, symmetric, and holds 1 on the diagonal
  for every column whose values have non-zero variance.
\<close>

theorem correlation_matrix_gate:
  assumes "wf_table t"
  shows "(length (select_dtypes_number t) < 1 \<longrightarrow> correlation_matrix_chart t = NeedsNumericColumns)
       \<and> (length (select_dtypes_number t) \<ge> 1 \<longrightarrow>
            correlation_matrix_chart t
              = CorrelationChart (map cname (select_dtypes_number t)) (corr (select_dtypes_number t))
            \<and> length (corr (select_dtypes_number t)) = length (select_dtypes_number t)
            \<and> (\<forall>i < length (select_dtypes_number t).
                 length (corr (select_dtypes_number t) ! i) = length (select_dtypes_number t)
                 \<and> (\<forall>j < length (select_dtypes_number t).
                      corr (select_dtypes_number t) ! i ! j = corr (select_dtypes_number t) ! j ! i)
                 \<and> (sum_sq_dev (cells (select_dtypes_number t ! i)) \<noteq> 0 \<longrightarrow>
                      corr (select_dtypes_number t) ! i ! i = Fin 1)))"
proof -
  have d: "distinct (map cname t)" using assms by (simp add: wf_table_def)
  have chart: "length (select_dtypes_number t) \<ge> 1 \<Longrightarrow> correlation_matrix_chart t
      = CorrelationChart (map cname (select_dtypes_number t)) (corr (select_dtypes_number t))"
    using getitem_numeric [OF d] by (simp add: correlation_matrix_chart_def)
  have none: "length (select_dtypes_number t) < 1 \<Longrightarrow> correlation_matrix_chart t = NeedsNumericColumns"
    by (simp add: correlation_matrix_chart_def)
  have sym: "\<And>i j. i < length (select_dtypes_number t) \<Longrightarrow> j < length (select_dtypes_number t) \<Longrightarrow>
      corr (select_dtypes_number t) ! i ! j = corr (select_dtypes_number t) ! j ! i"
    by (simp add: corr_def pearson_symmetric)
  have diag: "\<And>i. i < length (select_dtypes_number t) \<Longrightarrow>
      sum_sq_dev (cells (select_dtypes_number t ! i)) \<noteq> 0 \<Longrightarrow> corr (select_dtypes_number t) ! i ! i = Fin 1"
    by (simp add: corr_def pearson_self)
  have len: "\<And>i. i < length (select_dtypes_number t) \<Longrightarrow>
      length (corr (select_dtypes_number t) ! i) = length (select_dtypes_number t)"
    by (simp add: corr_def)
  show ?thesis using chart none sym diag len by (simp add: corr_def)
qed

text \<open>
  The theorem at a table with two numeric columns and a text column, and at a table with no
  numeric column.
\<close>

theorem correlation_matrix_gate_witness:
  "wf_table [\<lparr>cname = ''x'', ctype = Int64, cells = [IntV 0, IntV 2]\<rparr>,
             \<lparr>cname = ''n'', ctype = Object, cells = [StrV ''u'', NaN]\<rparr>,
             \<lparr>cname = ''y'', ctype = Float64, cells = [FloatV 5, FloatV 1]\<rparr>]
   \<and> correlation_matrix_chart
        [\<lparr>cname = ''x'', ctype = Int64, cells = [IntV 0, IntV 2]\<rparr>,
         \<lparr>cname = ''n'', ctype = Object, cells = [StrV ''u'', NaN]\<rparr>,
         \<lparr>cname = ''y'', ctype = Float64, cells = [FloatV 5, FloatV 1]\<rparr>]
       = CorrelationChart [''x'', ''y'']
           (corr [\<lparr>cname = ''x'', ctype = Int64, cells = [IntV 0, IntV 2]\<rparr>,
                  \<lparr>cname = ''y'', ctype = Float64, cells = [FloatV 5, FloatV 1]\<rparr>])
   \<and> corr [\<lparr>cname = ''x'', ctype = Int64, cells = [IntV 0, IntV 2]\<rparr>,
            \<lparr>cname = ''y'', ctype = Float64, cells = [FloatV 5, FloatV 1]\<rparr>] ! 0 ! 0 = Fin 1
   \<and> corr [\<lparr>cname = ''x'', ctype = Int64, cells = [IntV 0, IntV 2]\<rparr>,
            \<lparr>cname = ''y'', ctype = Float64, cells = [FloatV 5, FloatV 1]\<rparr>] ! 0 ! 1
       = corr [\<lparr>cname = ''x'', ctype = Int64, cells = [IntV 0, IntV 2]\<rparr>,
               \<lparr>cname = ''y'', ctype = Float64, cells = [FloatV 5, FloatV 1]\<rparr>] ! 1 ! 0
   \<and> correlation_matrix_chart [\<lparr>cname = ''n'', ctype = Object, cells = [StrV ''u'', NaN]\<rparr>]
       = NeedsNumericColumns"
proof -
  let ?t = "[\<lparr>cname = ''x'', ctype = Int64, cells = [IntV 0, IntV 2]\<rparr>,
             \<lparr>cname = ''n'', ctype = Object, cells = [StrV ''u'', NaN]\<rparr>,
             \<lparr>cname = ''y'', ctype = Float64, cells = [FloatV 5, FloatV 1]\<rparr>]"
  let ?u = "[\<lparr>cname = ''n'', ctype = Object, cells = [StrV ''u'', NaN]\<rparr>]"
  have wf: "wf_table ?t" by (simp add: table_eval)
  have wfu: "wf_table ?u" by (simp add: table_eval)
  have num: "select_dtypes_number ?t = [\<lparr>cname = ''x'', ctype = Int64, cells = [IntV 0, IntV 2]\<rparr>,
             \<lparr>cname = ''y'', ctype = Float64, cells = [FloatV 5, FloatV 1]\<rparr>]"
    by (simp add: table_eval)
  have numu: "select_dtypes_number ?u = []" by (simp add: table_eval)
  have ss: "sum_sq_dev [IntV 0, IntV 2] \<noteq> 0"
    by (simp add: sum_sq_dev_def present_def map_filter_simps avg_def)
  show ?thesis
    using wf correlation_matrix_gate [OF wf] correlation_matrix_gate [OF wfu] ss
    unfolding num numu by simp
qed

subsection \<open>C2: the scenario of duplicates and missing values\<close>

text \<open>
  C2 as the specification states it ends with a row count of 0. The file has three rows; one
  is removed as a duplicate and one for its missing value, so one row is left.
\<close>

theorem scenario_final_row_count_not_zero:
  "nrows (fst (drop_missing_rows (fst (remove_duplicate_rows
      [\<lparr>cname = ''a'', ctype = Int64, cells = [IntV 1, IntV 1, IntV 3]\<rparr>,
       \<lparr>cname = ''b'', ctype = Float64, cells = [FloatV 2, FloatV 2, NaN]\<rparr>])))) \<noteq> 0
   \<and> load_data no_codec \<lparr>file_name = ''data.csv'', file_bytes = scenario_csv\<rparr>
       = Some [\<lparr>cname = ''a'', ctype = Int64, cells = [IntV 1, IntV 1, IntV 3]\<rparr>,
               \<lparr>cname = ''b'', ctype = Float64, cells = [FloatV 2, FloatV 2, NaN]\<rparr>]"
  using load_scenario [of no_codec] dedup_scenario dropna_scenario by (simp add: nrows_def)

text \<open>
  C2 (amended). The CSV text of the scenario loads as three rows; Remove Duplicate Rows
  removes exactly 1 row; Drop rows with any missing values then removes exactly 1 row; the
  resulting table has row count 1 (the row 1,2).
\<close>

theorem scenario_final_row_count:
  "load_data cd \<lparr>file_name = ''data.csv'', file_bytes = scenario_csv\<rparr>
     = Some [\<lparr>cname = ''a'', ctype = Int64, cells = [IntV 1, IntV 1, IntV 3]\<rparr>,
             \<lparr>cname = ''b'', ctype = Float64, cells = [FloatV 2, FloatV 2, NaN]\<rparr>]
   \<and> remove_duplicate_rows
        [\<lparr>cname = ''a'', ctype = Int64, cells = [IntV 1, IntV 1, IntV 3]\<rparr>,
         \<lparr>cname = ''b'', ctype = Float64, cells = [FloatV 2, FloatV 2, NaN]\<rparr>]
     = ([\<lparr>cname = ''a'', ctype = Int64, cells = [IntV 1, IntV 3]\<rparr>,
         \<lparr>cname = ''b'', ctype = Float64, cells = [FloatV 2, NaN]\<rparr>], RemovedDuplicates 1)
   \<and> drop_missing_rows
        [\<lparr>cname = ''a'', ctype = Int64, cells = [IntV 1, IntV 3]\<rparr>,
         \<lparr>cname = ''b'', ctype = Float64, cells = [FloatV 2, NaN]\<rparr>]
     = ([\<lparr>cname = ''a'', ctype = Int64, cells = [IntV 1]\<rparr>,
         \<lparr>cname = ''b'', ctype = Float64, cells = [FloatV 2]\<rparr>], DroppedMissing 1)
   \<and> nrows [\<lparr>cname = ''a'', ctype = Int64, cells = [IntV 1]\<rparr>,
            \<lparr>cname = ''b'', ctype = Float64, cells = [FloatV 2]\<rparr>] = 1"
  using load_scenario dedup_scenario dropna_scenario by (simp add: nrows_def)

subsection \<open>C3: converting a column is atomic\<close>



subsection \<open>C4: removing duplicates is idempotent\<close>

text \<open>
  C4. For every well-formed table, Remove Duplicate Rows applied to its own result returns
  that result unchanged and reports that no duplicates were found: the second application
  removes 0 rows, since after one pass no row is flagged as the duplicate of an earlier row.
\<close>

theorem remove_duplicates_idempotent:
  assumes "wf_table t"
  shows "remove_duplicate_rows (fst (remove_duplicate_rows t))
           = (fst (remove_duplicate_rows t), NoDuplicates)
       \<and> count_true (duplicated (fst (remove_duplicate_rows t))) = 0"
proof (cases "count_true (duplicated t) > 0")
  case True
  then have "fst (remove_duplicate_rows t) = drop_duplicates t"
    by (simp add: remove_duplicate_rows_def)
  then show ?thesis
    using duplicated_drop_duplicates [OF wf_same_length [OF assms]]
    by (simp add: remove_duplicate_rows_def)
next
  case False
  then show ?thesis by (simp add: remove_duplicate_rows_def)
qed

text \<open>The theorem at the table of the scenario of C2.\<close>

theorem remove_duplicates_idempotent_witness:
  "wf_table [\<lparr>cname = ''a'', ctype = Int64, cells = [IntV 1, IntV 1, IntV 3]\<rparr>,
             \<lparr>cname = ''b'', ctype = Float64, cells = [FloatV 2, FloatV 2, NaN]\<rparr>]
   \<and> remove_duplicate_rows (fst (remove_duplicate_rows
        [\<lparr>cname = ''a'', ctype = Int64, cells = [IntV 1, IntV 1, IntV 3]\<rparr>,
         \<lparr>cname = ''b'', ctype = Float64, cells = [FloatV 2, FloatV 2, NaN]\<rparr>]))
     = ([\<lparr>cname = ''a'', ctype = Int64, cells = [IntV 1, IntV 3]\<rparr>,
         \<lparr>cname = ''b'', ctype = Float64, cells = [FloatV 2, NaN]\<rparr>], NoDuplicates)"
proof -
  let ?t = "[\<lparr>cname = ''a'', ctype = Int64, cells = [IntV 1, IntV 1, IntV 3]\<rparr>,
             \<lparr>cname = ''b'', ctype = Float64, cells = [FloatV 2, FloatV 2, NaN]\<rparr>]"
  have wf: "wf_table ?t" by (simp add: table_eval)
  show ?thesis using wf remove_duplicates_idempotent [OF wf] dedup_scenario by simp
qed

subsection \<open>C5: filling numeric columns with their mean\<close>

text \<open>
  C5. For every well-formed table with at least one numeric column, Fill numeric columns with
  mean replaces, in each numeric column, every missing value by the mean of that column as it
  was when the step started, and leaves every other column as it is. The mean of a column is
  the sum of its present values divided by their number (a column without a present value has
  the missing value as its mean, and stays as it is).
\<close>

theorem fill_mean_per_numeric_column:
  assumes "wf_table t" "select_dtypes_number t \<noteq> []"
  shows "fill_numeric_with_mean t =
           (map (\<lambda>c. if is_number (ctype c)
                      then c\<lparr>cells := map (\<lambda>v. if isnull v then mean (cells c) else v) (cells c)\<rparr>
                      else c) t,
            FilledMeans)
       \<and> list_all (\<lambda>c. present (cells c) = [] \<or>
              mean (cells c) = FloatV (sum_list (present (cells c)) / real (length (present (cells c))))) t"
proof -
  let ?ns = "map cname (select_dtypes_number t)"
  have d: "distinct (map cname t)" using assms(1) by (simp add: wf_table_def)
  have dn: "distinct ?ns" unfolding select_dtypes_number_def using d by (rule distinct_map_filter)
  have sub: "set ?ns \<subseteq> set (map cname t)" by (auto simp: select_dtypes_number_def)
  have mem: "\<And>c. c \<in> set t \<Longrightarrow> cname c \<in> set ?ns \<longleftrightarrow> is_number (ctype c)"
  proof
    fix c assume c: "c \<in> set t" and "cname c \<in> set ?ns"
    then obtain e where e: "e \<in> set t" "is_number (ctype e)" "cname e = cname c"
      by (auto simp: select_dtypes_number_def)
    then have "e = c" using same_label_same_column [OF d c] by blast
    then show "is_number (ctype c)" using e(2) by simp
  next
    fix c assume "c \<in> set t" "is_number (ctype c)"
    then show "cname c \<in> set ?ns" by (auto simp: select_dtypes_number_def)
  qed
  have "foldl fill_mean_col t ?ns = map (\<lambda>c. if cname c \<in> set ?ns then fill_mean c else c) t"
    using foldl_fill_mean_col [OF d dn sub] .
  also have "\<dots> = map (\<lambda>c. if is_number (ctype c) then fill_mean c else c) t"
    by (rule map_cong) (use mem in auto)
  finally have "foldl fill_mean_col t ?ns = map (\<lambda>c. if is_number (ctype c) then fill_mean c else c) t" .
  then have "fill_numeric_with_mean t = (map (\<lambda>c. if is_number (ctype c) then fill_mean c else c) t, FilledMeans)"
    using assms(2) by (simp add: fill_numeric_with_mean_def)
  moreover have "list_all (\<lambda>c. present (cells c) = [] \<or>
      mean (cells c) = FloatV (sum_list (present (cells c)) / real (length (present (cells c))))) t"
    by (simp add: list_all_iff mean_def Let_def)
  ultimately show ?thesis by (simp add: fill_mean_def)
qed

text \<open>
  The theorem at the scenario of the specification: in the numeric column 1, NaN, 3 the
  missing value becomes 2; the text column keeps its missing value.
\<close>

theorem fill_mean_per_numeric_column_witness:
  "wf_table [\<lparr>cname = ''x'', ctype = Float64, cells = [FloatV 1, NaN, FloatV 3]\<rparr>,
             \<lparr>cname = ''n'', ctype = Object, cells = [StrV ''u'', NaN, StrV ''w'']\<rparr>]
   \<and> select_dtypes_number
        [\<lparr>cname = ''x'', ctype = Float64, cells = [FloatV 1, NaN, FloatV 3]\<rparr>,
         \<lparr>cname = ''n'', ctype = Object, cells = [StrV ''u'', NaN, StrV ''w'']\<rparr>] \<noteq> []
   \<and> fill_numeric_with_mean
        [\<lparr>cname = ''x'', ctype = Float64, cells = [FloatV 1, NaN, FloatV 3]\<rparr>,
         \<lparr>cname = ''n'', ctype = Object, cells = [StrV ''u'', NaN, StrV ''w'']\<rparr>]
     = ([\<lparr>cname = ''x'', ctype = Float64, cells = [FloatV 1, FloatV 2, FloatV 3]\<rparr>,
         \<lparr>cname = ''n'', ctype = Object, cells = [StrV ''u'', NaN, StrV ''w'']\<rparr>], FilledMeans)"
proof -
  let ?t = "[\<lparr>cname = ''x'', ctype = Float64, cells = [FloatV 1, NaN, FloatV 3]\<rparr>,
             \<lparr>cname = ''n'', ctype = Object, cells = [StrV ''u'', NaN, StrV ''w'']\<rparr>]"
  have wf: "wf_table ?t" by (simp add: table_eval)
  have ne: "select_dtypes_number ?t \<noteq> []" by (simp add: table_eval)
  have m: "mean [FloatV 1, NaN, FloatV 3] = FloatV 2"
    by (simp add: mean_def present_def map_filter_simps)
  show ?thesis using wf ne fill_mean_per_numeric_column [OF wf ne] m
    by (simp add: is_number_def isnull_def)
qed

subsection \<open>C6: filling with a custom value\<close>




subsection \<open>C7: exporting to CSV and loading the export\<close>




subsection \<open>C8: the missing percentage of a table without rows\<close>

text \<open>
  C8. For every well-formed table with zero rows, the Missing % that Dataset Information
  reports is NaN for every column: the division by the row count is not guarded, and numpy
  divides 0 by 0.
\<close>

theorem missing_pct_zero_rows:
  assumes "wf_table t" "nrows t = 0"
  shows "list_all (\<lambda>d. missing_pct d = NotANumber) (col_types t)
       \<and> map column_name (col_types t) = map cname t"
proof -
  have "\<forall>c \<in> set t. isnull_sum c = 0"
    using assms by (auto simp: wf_table_def list_all_iff isnull_sum_def)
  then show ?thesis using assms(2)
    by (simp add: col_types_def list_all_iff np_true_divide_def comp_def)
qed

text \<open>The theorem at the table of a CSV file that has a header and no data line.\<close>

theorem missing_pct_zero_rows_witness:
  "wf_table [\<lparr>cname = ''a'', ctype = Object, cells = []\<rparr>]
   \<and> nrows [\<lparr>cname = ''a'', ctype = Object, cells = []\<rparr>] = 0
   \<and> col_types [\<lparr>cname = ''a'', ctype = Object, cells = []\<rparr>]
       = [\<lparr>column_name = ''a'', data_type = ''object'', missing_values = 0, missing_pct = NotANumber\<rparr>]"
proof -
  let ?t = "[\<lparr>cname = ''a'', ctype = Object, cells = []\<rparr>]"
  have wf: "wf_table ?t" by (simp add: table_eval)
  have z: "nrows ?t = 0" by (simp add: nrows_def)
  show ?thesis using wf z missing_pct_zero_rows [OF wf z]
    by (simp add: col_types_def isnull_sum_def)
qed

subsection \<open>C9: a custom fill value takes columns out of the numeric columns\<close>




subsection \<open>C10: selecting the columns to keep\<close>

text \<open>
  C10. For every table with distinct labels: with an empty selection the table stays as it is
  and the script only warns; with a non-empty selection of existing labels the result holds
  exactly the selected columns, in the order of the selection.
\<close>

theorem select_columns_keeps_selection:
  assumes "distinct (map cname t)" "set sel \<subseteq> set (map cname t)"
  shows "select_columns [] t = Inr (t, SelectAtLeastOne)
       \<and> (sel \<noteq> [] \<longrightarrow>
            (\<exists>t'. select_columns sel t = Inr (t', KeptColumns (length sel))
                 \<and> map cname t' = sel \<and> map Some t' = map (get_col t) sel))"
proof -
  obtain t' where "getitem_cols t sel = Inr t'" "map cname t' = sel" "map Some t' = map (get_col t) sel"
    using getitem_cols_distinct [OF assms] by blast
  then show ?thesis by (simp add: select_columns_def)
qed

text \<open>
  The theorem at a table of three columns, with the selection c, a and with the empty
  selection.
\<close>

theorem select_columns_keeps_selection_witness:
  "distinct (map cname
      [\<lparr>cname = ''a'', ctype = Int64, cells = [IntV 1]\<rparr>,
       \<lparr>cname = ''b'', ctype = Object, cells = [StrV ''u'']\<rparr>,
       \<lparr>cname = ''c'', ctype = Float64, cells = [NaN]\<rparr>])
   \<and> select_columns [''c'', ''a'']
        [\<lparr>cname = ''a'', ctype = Int64, cells = [IntV 1]\<rparr>,
         \<lparr>cname = ''b'', ctype = Object, cells = [StrV ''u'']\<rparr>,
         \<lparr>cname = ''c'', ctype = Float64, cells = [NaN]\<rparr>]
       = Inr ([\<lparr>cname = ''c'', ctype = Float64, cells = [NaN]\<rparr>,
               \<lparr>cname = ''a'', ctype = Int64, cells = [IntV 1]\<rparr>], KeptColumns 2)
   \<and> select_columns []
        [\<lparr>cname = ''a'', ctype = Int64, cells = [IntV 1]\<rparr>,
         \<lparr>cname = ''b'', ctype = Object, cells = [StrV ''u'']\<rparr>,
         \<lparr>cname = ''c'', ctype = Float64, cells = [NaN]\<rparr>]
       = Inr ([\<lparr>cname = ''a'', ctype = Int64, cells = [IntV 1]\<rparr>,
               \<lparr>cname = ''b'', ctype = Object, cells = [StrV ''u'']\<rparr>,
               \<lparr>cname = ''c'', ctype = Float64, cells = [NaN]\<rparr>], SelectAtLeastOne)"
proof -
  let ?t = "[\<lparr>cname = ''a'', ctype = Int64, cells = [IntV 1]\<rparr>,
       \<lparr>cname = ''b'', ctype = Object, cells = [StrV ''u'']\<rparr>,
       \<lparr>cname = ''c'', ctype = Float64, cells = [NaN]\<rparr>]"
  have d: "distinct (map cname ?t)" by simp
  have s: "set [''c'', ''a''] \<subseteq> set (map cname ?t)" by simp
  show ?thesis using d select_columns_keeps_selection [OF d s]
    by (simp add: select_columns_def getitem_cols_def)
qed

end
